theory Spec2Isabelle
  imports Main "HOL-Library.Char_ord" "HOL-Library.List_Lexorder" "HOL-Library.Multiset"
begin

section \<open>Go strings and the library functions the handler calls\<close>

text \<open>
  A Go string is a sequence of bytes: \<^typ>\<open>string\<close>. The order \<open><\<close> on Go strings is
  the bytewise lexicographic one, which is the order of \<open>List_Lexorder\<close> over \<open>Char_ord\<close>.
\<close>

definition sep :: char where
  "sep = CHR ''/''"

definition dot :: char where
  "dot = CHR ''.''"

text \<open>\<open>strings.HasPrefix\<close>, \<open>strings.HasSuffix\<close>.\<close>

definition HasPrefix :: "string \<Rightarrow> string \<Rightarrow> bool" where
  "HasPrefix s p = (length p \<le> length s \<and> take (length p) s = p)"

definition HasSuffix :: "string \<Rightarrow> string \<Rightarrow> bool" where
  "HasSuffix s p = (length p \<le> length s \<and> drop (length s - length p) s = p)"

text \<open>
  \<open>filepath.Ext\<close> (Unix): scan from the last byte towards the front, stop at a separator,
  return the suffix that starts at the first dot met. The first argument is the part of the
  name not yet scanned, reversed; the second is the suffix already passed.
\<close>

fun ext_scan :: "string \<Rightarrow> string \<Rightarrow> string" where
  "ext_scan [] acc = []"
| "ext_scan (c # cs) acc =
     (if c = sep then []
      else if c = dot then c # acc
      else ext_scan cs (c # acc))"

definition Ext :: "string \<Rightarrow> string" where
  "Ext name = ext_scan (rev name) []"

text \<open>
  \<open>path.Base\<close>: the empty path gives \<open>.\<close>; trailing separators are stripped; what follows
  the last separator is kept; a path of separators only gives \<open>/\<close>.
\<close>

definition Base :: "string \<Rightarrow> string" where
  "Base p =
     (if p = [] then ''.''
      else let stripped = rev (dropWhile (\<lambda>c. c = sep) (rev p));
               last_elem = rev (takeWhile (\<lambda>c. c \<noteq> sep) (rev stripped))
           in if last_elem = [] then ''/'' else last_elem)"

text \<open>
  \<open>path.Clean\<close>, byte by byte as the library writes it. \<open>out\<close> is the written part of the
  buffer (its length is the write index \<open>w\<close>), \<open>dotdot\<close> the index below which a \<open>..\<close>
  element may not backtrack.
\<close>

function back_loop :: "nat \<Rightarrow> string \<Rightarrow> nat \<Rightarrow> string" where
  "back_loop dotdot out w =
     (if w > dotdot \<and> out ! w \<noteq> sep then back_loop dotdot out (w - 1) else take w out)"
  by pat_completeness auto
termination
  by (relation "measure (\<lambda>(dotdot, out, w). w)") auto

definition backtrack :: "nat \<Rightarrow> string \<Rightarrow> string" where
  "backtrack dotdot out = back_loop dotdot out (length out - 1)"

definition at_end_or_sep :: "string \<Rightarrow> bool" where
  "at_end_or_sep s = (case s of [] \<Rightarrow> True | c # _ \<Rightarrow> c = sep)"

function Clean_loop :: "bool \<Rightarrow> nat \<Rightarrow> string \<Rightarrow> string \<Rightarrow> string" where
  "Clean_loop rooted dotdot out [] = out"
| "Clean_loop rooted dotdot out (c # rest) =
     (if c = sep then Clean_loop rooted dotdot out rest
      else if c = dot \<and> at_end_or_sep rest then Clean_loop rooted dotdot out rest
      else if c = dot \<and> rest \<noteq> [] \<and> hd rest = dot \<and> at_end_or_sep (tl rest) then
        (if length out > dotdot then
           Clean_loop rooted dotdot (backtrack dotdot out) (tl rest)
         else if \<not> rooted then
           (let out' = (if length out > 0 then out @ [sep] else out) @ [dot, dot]
            in Clean_loop rooted (length out') out' (tl rest))
         else Clean_loop rooted dotdot out (tl rest))
      else
        (let out' = (if rooted \<and> length out \<noteq> 1 \<or> \<not> rooted \<and> length out \<noteq> 0
                     then out @ [sep] else out)
         in Clean_loop rooted dotdot
              (out' @ takeWhile (\<lambda>x. x \<noteq> sep) (c # rest))
              (dropWhile (\<lambda>x. x \<noteq> sep) (c # rest))))"
  by pat_completeness auto
termination
  by (relation "measure (\<lambda>(rooted, dotdot, out, p). length p)")
     (auto simp: le_imp_less_Suc length_dropWhile_le)

definition Clean :: "string \<Rightarrow> string" where
  "Clean p =
     (if p = [] then ''.''
      else let rooted = (hd p = sep);
               out = (if rooted then Clean_loop True 1 [sep] (tl p)
                      else Clean_loop False 0 [] p)
           in if out = [] then ''.'' else out)"

text \<open>
  \<open>filepath.Join\<close> (Unix): the elements from the first non-empty one on are joined with
  separators and the result is cleaned; with no non-empty element the result is empty.
\<close>

fun strings_Join :: "string list \<Rightarrow> string \<Rightarrow> string" where
  "strings_Join [] s = []"
| "strings_Join [e] s = e"
| "strings_Join (e # es) s = e @ s @ strings_Join es s"

definition Join :: "string list \<Rightarrow> string" where
  "Join elem =
     (case dropWhile (\<lambda>e. e = []) elem of
        [] \<Rightarrow> []
      | es \<Rightarrow> Clean (strings_Join es ''/''))"

text \<open>
  \<open>http.StatusText\<close> on the status codes that this package uses; every code without a
  registered text gives the empty string.
\<close>

definition StatusTemporaryRedirect :: nat where "StatusTemporaryRedirect = 307"
definition StatusForbidden :: nat where "StatusForbidden = 403"
definition StatusNotFound :: nat where "StatusNotFound = 404"
definition StatusInternalServerError :: nat where "StatusInternalServerError = 500"

definition StatusText :: "nat \<Rightarrow> string" where
  "StatusText code =
     (if code = 307 then ''Temporary Redirect''
      else if code = 403 then ''Forbidden''
      else if code = 404 then ''Not Found''
      else if code = 500 then ''Internal Server Error''
      else [])"

section \<open>Data model\<close>

text \<open>
  Failures. \<open>ErrNotFound\<close> is the sentinel of the package; \<open>OsNotExist\<close> and
  \<open>OsPermission\<close> are the failures that \<open>os.IsNotExist\<close> and \<open>os.IsPermission\<close>
  recognise; \<open>OtherError\<close> is any other failure, with its message.
\<close>

datatype error = ErrNotFound | OsNotExist | OsPermission | OtherError string

definition os_IsNotExist :: "error \<Rightarrow> bool" where
  "os_IsNotExist err = (err = OsNotExist)"

definition os_IsPermission :: "error \<Rightarrow> bool" where
  "os_IsPermission err = (err = OsPermission)"

record File =
  Name :: string
  IsDir :: bool

text \<open>What \<open>os.FileInfo\<close> gives to this package: name, directory flag, modification time.\<close>

record FileInfo =
  fi_Name :: string
  fi_IsDir :: bool
  fi_ModTime :: nat

record Layout =
  l_root :: string
  l_path :: string
  l_theme :: string

record IndexPage = Layout +
  Files :: "File list"

record DocumentPage = Layout +
  doc_Name :: string
  Content :: string

record request =
  URL_Path :: string
  URL_RawQuery :: string

text \<open>
  Effects are a trace of events, in the order the code performs them: the calls on the
  file system, the calls of the three configured functions, and the calls on the response
  writer (\<open>w.Header().Set\<close>, \<open>w.WriteHeader\<close>, \<open>http.Error\<close>, \<open>http.ServeContent\<close>).
  A panic ends the trace. The deferred \<open>Close\<close> calls on the opened files are not
  recorded.
\<close>

datatype event =
    OsOpen string
  | FileStat string
  | FileReaddir string
  | ReadAll string
  | CallIndexRenderer "IndexPage"
  | CallDocumentRenderer "DocumentPage"
  | CallErrorHandler error
  | HeaderSet string string
  | WriteHeader nat
  | HttpError string nat
  | ServeContent string nat string
  | Panic

text \<open>
  The world outside the package. An open \<open>*os.File\<close> is identified by the name it was
  opened under, which is what \<open>f.Name()\<close> returns; the file system is only read.
  \<open>os_Open\<close> gives the failure of \<open>os.Open\<close>, if any. \<open>gfm_Markdown\<close> is the external
  Markdown converter. \<open>template_ok\<close> says whether a template file loads, and the two
  \<open>execute\<close> functions run the loaded layout and page templates on a page.
\<close>

record env =
  os_Open :: "string \<Rightarrow> error option"
  file_Stat :: "string \<Rightarrow> error + FileInfo"
  file_Readdir :: "string \<Rightarrow> error + FileInfo list"
  ioutil_ReadAll :: "string \<Rightarrow> error + string"
  gfm_Markdown :: "string \<Rightarrow> string"
  template_ok :: "string \<Rightarrow> bool"
  execute_index :: "string \<Rightarrow> string \<Rightarrow> IndexPage \<Rightarrow> error + string"
  execute_document :: "string \<Rightarrow> string \<Rightarrow> DocumentPage \<Rightarrow> error + string"

text \<open>
  A rendering function returns the Go pair \<open>([]byte, error)\<close>. In the handler the two
  rendering fields are \<open>None\<close> while they hold Go's nil, as they do in the struct literal
  of \<open>New\<close>.
\<close>

type_synonym 'a renderer = "'a \<Rightarrow> string \<times> error option"

record handler =
  dir :: string
  root :: string
  themeDir :: string
  assetsDir :: string
  indexRenderer :: "IndexPage renderer option"
  documentRenderer :: "DocumentPage renderer option"
  errorHandler :: "request \<Rightarrow> error \<Rightarrow> event list"

section \<open>Options (options.go)\<close>

type_synonym Option = "handler \<Rightarrow> handler"


definition defaultRoot :: string where
  "defaultRoot = ''/''"


definition defaultThemeDir :: string where
  "defaultThemeDir = ''contrib/themes/default''"

definition IndexRenderer :: "IndexPage renderer \<Rightarrow> Option" where
  "IndexRenderer fn = (\<lambda>h. h\<lparr>indexRenderer := Some fn\<rparr>)"

text \<open>
  \<open>defaultIndexRenderer\<close>: \<open>template.Must\<close> panics (\<open>None\<close>) when one of the two template
  files does not load; otherwise the result is the closure that executes the template.
\<close>

definition defaultIndexRenderer :: "env \<Rightarrow> string \<Rightarrow> IndexPage renderer option" where
  "defaultIndexRenderer E themeDir' =
     (let layout = Join [themeDir', ''layout.html''];
          page = Join [themeDir', ''index.html'']
      in if \<not> template_ok E layout then None
         else if \<not> template_ok E page then None
         else Some (\<lambda>v. case execute_index E layout page v of
                            Inl err \<Rightarrow> ([], Some err)
                          | Inr buf \<Rightarrow> (buf, None)))"

definition DocumentRenderer :: "DocumentPage renderer \<Rightarrow> Option" where
  "DocumentRenderer fn = (\<lambda>h. h\<lparr>documentRenderer := Some fn\<rparr>)"

definition defaultDocumentRenderer :: "env \<Rightarrow> string \<Rightarrow> DocumentPage renderer option" where
  "defaultDocumentRenderer E themeDir' =
     (let layout = Join [themeDir', ''layout.html''];
          page = Join [themeDir', ''doc.html'']
      in if \<not> template_ok E layout then None
         else if \<not> template_ok E page then None
         else Some (\<lambda>v. case execute_document E layout page v of
                            Inl err \<Rightarrow> ([], Some err)
                          | Inr buf \<Rightarrow> (buf, None)))"

definition ErrorHandler :: "(request \<Rightarrow> error \<Rightarrow> event list) \<Rightarrow> Option" where
  "ErrorHandler fn = (\<lambda>h. h\<lparr>errorHandler := fn\<rparr>)"

definition defaultErrorHandler :: "request \<Rightarrow> error \<Rightarrow> event list" where
  "defaultErrorHandler req err =
     (let code = (if err = ErrNotFound then StatusNotFound
                  else if os_IsNotExist err then StatusNotFound
                  else if os_IsPermission err then StatusForbidden
                  else StatusInternalServerError)
      in [HttpError (StatusText code) code])"

section \<open>The handler (mdoc.go)\<close>

text \<open>
  \<open>New\<close>. The result is \<open>None\<close> when a \<open>template.Must\<close> of the default renderers panics.
  The returned \<open>http.ServeMux\<close> routes \<open>/.mdoc/assets/\<close> to the file server of
  \<open>assetsDir\<close> and every other path to the handler \<open>h\<close>, which is what is modelled here.
\<close>

definition New :: "env \<Rightarrow> string \<Rightarrow> Option list \<Rightarrow> handler option" where
  "New E d opts =
     (let d' = (if d = [] then ''.'' else d);
          h0 = \<lparr>dir = d', root = defaultRoot, themeDir = defaultThemeDir, assetsDir = [],
                indexRenderer = None, documentRenderer = None,
                errorHandler = defaultErrorHandler\<rparr>;
          h1 = foldl (\<lambda>h option. option h) h0 opts
      in case defaultIndexRenderer E (themeDir h1) of
           None \<Rightarrow> None
         | Some ir \<Rightarrow>
             (case defaultDocumentRenderer E (themeDir h1) of
                None \<Rightarrow> None
              | Some dr \<Rightarrow>
                  Some (h1\<lparr>indexRenderer := Some ir, documentRenderer := Some dr,
                            assetsDir := Join [themeDir h1, ''assets'']\<rparr>)))"

definition redirect :: "request \<Rightarrow> string \<Rightarrow> event list" where
  "redirect req loc =
     (let q = URL_RawQuery req;
          loc' = (if q \<noteq> [] then loc @ ''?'' @ q else loc)
      in [HeaderSet ''Location'' loc', WriteHeader StatusTemporaryRedirect])"

definition isMarkdownFile :: "string \<Rightarrow> bool" where
  "isMarkdownFile name = (let ext = Ext name in ext \<in> set [''.md'', ''.markdown''])"

text \<open>\<open>byName.Less\<close>, on the two elements instead of their indices.\<close>

definition Less :: "File \<Rightarrow> File \<Rightarrow> bool" where
  "Less a b =
     (if IsDir a \<and> \<not> IsDir b then True
      else if \<not> IsDir a \<and> IsDir b then False
      else Name a < Name b)"

text \<open>
  \<open>sort.Sort\<close> returns a permutation of its input that is ordered by \<open>Less\<close>. A \<open>File\<close>
  has no field beyond the two that \<open>Less\<close> compares, so two files that \<open>Less\<close> does not
  order are equal and that permutation is unique (\<open>Sort_unique\<close> below): insertion by
  \<open>Less\<close> computes it.
\<close>

fun insert_by_Less :: "File \<Rightarrow> File list \<Rightarrow> File list" where
  "insert_by_Less x [] = [x]"
| "insert_by_Less x (y # ys) = (if Less y x then y # insert_by_Less x ys else x # y # ys)"

definition Sort :: "File list \<Rightarrow> File list" where
  "Sort v = foldr insert_by_Less v []"

text \<open>The loop of \<open>getFiles\<close> over the entries read.\<close>

fun collect_files :: "FileInfo list \<Rightarrow> File list" where
  "collect_files [] = []"
| "collect_files (fi # fis) =
     (let f = \<lparr>Name = fi_Name fi, IsDir = fi_IsDir fi\<rparr>
      in if HasPrefix (Name f) ''.'' \<or> (\<not> IsDir f \<and> \<not> isMarkdownFile (Name f))
         then collect_files fis
         else f # collect_files fis)"

definition getFiles :: "env \<Rightarrow> string \<Rightarrow> event list \<times> (error + File list)" where
  "getFiles E f =
     (case file_Readdir E f of
        Inl err \<Rightarrow> ([FileReaddir f], Inl err)
      | Inr fis \<Rightarrow> ([FileReaddir f], Inr (Sort (collect_files fis))))"

text \<open>
  \<open>renderIndex\<close> and \<open>renderDocument\<close> return their trace and the Go pair
  \<open>([]byte, error)\<close>; the pair is \<open>None\<close> when the call of a nil rendering function
  panics.
\<close>

definition renderIndex ::
  "env \<Rightarrow> handler \<Rightarrow> string \<Rightarrow> string \<Rightarrow> event list \<times> (string \<times> error option) option" where
  "renderIndex E h f path =
     (case getFiles E f of
        (evs, Inl err) \<Rightarrow> (evs, Some ([], Some err))
      | (evs, Inr files) \<Rightarrow>
          (let v = \<lparr>l_root = root h, l_path = path, l_theme = [], Files = files\<rparr>
           in case indexRenderer h of
                None \<Rightarrow> (evs @ [Panic], None)
              | Some fn \<Rightarrow> (evs @ [CallIndexRenderer v], Some (fn v))))"

definition renderDocument ::
  "env \<Rightarrow> handler \<Rightarrow> string \<Rightarrow> string \<Rightarrow> event list \<times> (string \<times> error option) option" where
  "renderDocument E h f path =
     (let name = f
      in if \<not> isMarkdownFile name then ([], Some ([], Some ErrNotFound))
         else case ioutil_ReadAll E f of
                Inl err \<Rightarrow> ([ReadAll f], Some ([], Some err))
              | Inr raw \<Rightarrow>
                  (let v = \<lparr>l_root = root h, l_path = path, l_theme = [],
                            doc_Name = name, Content = gfm_Markdown E raw\<rparr>
                   in case documentRenderer h of
                        None \<Rightarrow> ([ReadAll f, Panic], None)
                      | Some fn \<Rightarrow> ([ReadAll f, CallDocumentRenderer v], Some (fn v))))"

text \<open>
  \<open>ServeHTTP\<close>, lines 55 to 62: the URL path with its leading separator, and the name
  of the file system entry it stands for.
\<close>

definition request_url :: "request \<Rightarrow> string" where
  "request_url req =
     (let url = URL_Path req
      in if \<not> HasPrefix url ''/'' then ''/'' @ url else url)"

definition resolve :: "handler \<Rightarrow> string \<Rightarrow> string" where
  "resolve h url = (let name = dir h in if url \<noteq> ''/'' then name @ Clean url else name)"

text \<open>
  \<open>ServeHTTP\<close>, lines 92 to 107: what is done with the entry \<open>f\<close>, \<open>fi\<close> that the
  first part has settled on. After a failed rendering the error handler is called and
  control goes on to \<open>http.ServeContent\<close>, as in the source.
\<close>

definition after_render ::
  "handler \<Rightarrow> request \<Rightarrow> string \<Rightarrow> FileInfo \<Rightarrow>
   event list \<times> (string \<times> error option) option \<Rightarrow> event list" where
  "after_render h req name fi r =
     (case r of
        (evs, None) \<Rightarrow> evs
      | (evs, Some (b, None)) \<Rightarrow> evs @ [ServeContent name (fi_ModTime fi) b]
      | (evs, Some (b, Some err)) \<Rightarrow>
          evs @ [CallErrorHandler err] @ errorHandler h req err
              @ [ServeContent name (fi_ModTime fi) b])"

definition serve_entry ::
  "env \<Rightarrow> handler \<Rightarrow> request \<Rightarrow> string \<Rightarrow> string \<Rightarrow> string \<Rightarrow> FileInfo \<Rightarrow> bool \<Rightarrow> event list"
  where
  "serve_entry E h req url name f fi isIndexPage =
     (if fi_IsDir fi then after_render h req name fi (renderIndex E h f url)
      else if \<not> isIndexPage \<and> HasSuffix url ''/'' then redirect req (''../'' @ Base url)
      else after_render h req name fi (renderDocument E h f url))"

definition ServeHTTP :: "env \<Rightarrow> handler \<Rightarrow> request \<Rightarrow> event list" where
  "ServeHTTP E h req =
     (let url = request_url req;
          name = resolve h url
      in case os_Open E name of
           Some err \<Rightarrow> [OsOpen name, CallErrorHandler err] @ errorHandler h req err
         | None \<Rightarrow>
             (case file_Stat E name of
                Inl err \<Rightarrow>
                  [OsOpen name, FileStat name, CallErrorHandler err] @ errorHandler h req err
              | Inr fi \<Rightarrow>
                  [OsOpen name, FileStat name] @
                  (if fi_IsDir fi then
                     (if \<not> HasSuffix url ''/'' then redirect req (Base url @ ''/'')
                      else
                        (let name' = name @ ''/index.md''
                         in case os_Open E name' of
                              Some err \<Rightarrow>
                                [OsOpen name'] @ serve_entry E h req url name' name fi False
                            | None \<Rightarrow>
                                (case file_Stat E name' of
                                   Inl err \<Rightarrow>
                                     [OsOpen name', FileStat name']
                                     @ serve_entry E h req url name' name fi False
                                 | Inr ffi \<Rightarrow>
                                     [OsOpen name', FileStat name']
                                     @ serve_entry E h req url name' name' ffi True)))
                   else serve_entry E h req url name name fi False)))"

section \<open>Vocabulary of the properties\<close>

text \<open>
  A rooted path written from its segments: \<open>/\<close> for no segment, otherwise each segment
  after one separator. A clean segment is not empty, holds no separator, and is neither
  \<open>.\<close> nor \<open>..\<close>.
\<close>

definition rooted_path :: "string list \<Rightarrow> string" where
  "rooted_path segs = (if segs = [] then [sep] else concat (map (\<lambda>s. sep # s) segs))"

definition clean_segment :: "string \<Rightarrow> bool" where
  "clean_segment s = (s \<noteq> [] \<and> sep \<notin> set s \<and> s \<noteq> ''.'' \<and> s \<noteq> ''..'')"

text \<open>
  Lexical cleaning of a rooted path, as the specification words it, to be compared with
  \<open>Clean\<close>. The path is cut at its separators into segments. The segments are read from
  left to right: an empty segment (a repeated, leading or trailing separator) and \<open>.\<close>
  are dropped, \<open>..\<close> removes the last segment kept so far, if there is one, and any
  other segment is kept. The result is the rooted path of the segments kept.
\<close>

fun segments :: "string \<Rightarrow> string list" where
  "segments [] = [[]]"
| "segments (c # cs) =
     (if c = sep then [] # segments cs
      else (case segments cs of
              [] \<Rightarrow> [[c]]
            | s # ss \<Rightarrow> (c # s) # ss))"

fun resolve_segments :: "string list \<Rightarrow> string list \<Rightarrow> string list" where
  "resolve_segments kept [] = kept"
| "resolve_segments kept (s # ss) =
     (if s = [] \<or> s = ''.'' then resolve_segments kept ss
      else if s = ''..'' then resolve_segments (butlast kept) ss
      else resolve_segments (kept @ [s]) ss)"

definition lexical_clean :: "string \<Rightarrow> string" where
  "lexical_clean p = rooted_path (resolve_segments [] (segments p))"

text \<open>
  The order the listing is claimed to have: a directory never comes after a file, and two
  entries of the same kind come in ascending order of their names.
\<close>

definition listing_order :: "File \<Rightarrow> File \<Rightarrow> bool" where
  "listing_order a b =
     ((IsDir a \<or> \<not> IsDir b) \<and> (if IsDir a = IsDir b then Name a \<le> Name b else True))"

section \<open>A sample site\<close>

text \<open>
  The base directory \<open>docs\<close> holds the files \<open>a.md\<close> and \<open>a.txt\<close>, the directory
  \<open>notes\<close> (four files and the directory \<open>api\<close>, no \<open>index.md\<close>) and the directory
  \<open>guide\<close> with an \<open>index.md\<close>. Every template loads; the default index template
  renders to \<open>default index\<close>, the default document template to \<open>default doc\<close>.
\<close>

definition sample_dirs :: "string list" where
  "sample_dirs = [''docs'', ''docs/notes'', ''docs/guide'', ''docs/notes/api'']"

definition sample_files :: "string list" where
  "sample_files = [''docs/a.md'', ''docs/a.txt'', ''docs/guide/index.md'',
                   ''docs/notes/guide.md'', ''docs/notes/internal.md'',
                   ''docs/notes/.draft.md'', ''docs/notes/todo.txt'']"

definition sample_listing :: "FileInfo list" where
  "sample_listing =
     [\<lparr>fi_Name = ''internal.md'', fi_IsDir = False, fi_ModTime = 3\<rparr>,
      \<lparr>fi_Name = ''.draft.md'', fi_IsDir = False, fi_ModTime = 4\<rparr>,
      \<lparr>fi_Name = ''todo.txt'', fi_IsDir = False, fi_ModTime = 5\<rparr>,
      \<lparr>fi_Name = ''guide.md'', fi_IsDir = False, fi_ModTime = 6\<rparr>,
      \<lparr>fi_Name = ''api'', fi_IsDir = True, fi_ModTime = 7\<rparr>]"

definition sample_env :: env where
  "sample_env =
     \<lparr>os_Open = (\<lambda>n. if n \<in> set sample_dirs \<or> n \<in> set sample_files then None
                       else Some OsNotExist),
      file_Stat = (\<lambda>n. if n \<in> set sample_dirs
                         then Inr \<lparr>fi_Name = Base n, fi_IsDir = True, fi_ModTime = 1\<rparr>
                         else if n \<in> set sample_files
                         then Inr \<lparr>fi_Name = Base n, fi_IsDir = False, fi_ModTime = 2\<rparr>
                         else Inl OsNotExist),
      file_Readdir = (\<lambda>n. if n = ''docs/notes'' then Inr sample_listing
                            else if n \<in> set sample_dirs then Inr []
                            else Inl (OtherError ''not a directory'')),
      ioutil_ReadAll = (\<lambda>n. if n \<in> set sample_files then Inr ''# Title''
                              else Inl (OtherError ''is a directory'')),
      gfm_Markdown = (\<lambda>raw. ''<h1>Title</h1>''),
      template_ok = (\<lambda>n. True),
      execute_index = (\<lambda>layout page v. Inr ''default index''),
      execute_document = (\<lambda>layout page v. Inr ''default doc'')\<rparr>"

definition sample_handler :: handler where
  "sample_handler =
     \<lparr>dir = ''docs'', root = ''/'', themeDir = ''contrib/themes/default'',
      assetsDir = ''contrib/themes/default/assets'',
      indexRenderer = Some (\<lambda>v. (''default index'', None)),
      documentRenderer = Some (\<lambda>v. (''default doc'', None)),
      errorHandler = defaultErrorHandler\<rparr>"

definition custom_index :: "IndexPage renderer" where
  "custom_index v = (''custom index'', None)"

definition custom_document :: "DocumentPage renderer" where
  "custom_document v = (''custom doc'', None)"

text \<open>An error handler that writes nothing to the response (one that only logs, say).\<close>

definition silent_handler :: "request \<Rightarrow> error \<Rightarrow> event list" where
  "silent_handler req err = []"

definition get :: "string \<Rightarrow> string \<Rightarrow> request" where
  "get p q = \<lparr>URL_Path = p, URL_RawQuery = q\<rparr>"

section \<open>Evaluation of the sample site\<close>

lemmas sample_defs = sample_env_def sample_handler_def sample_dirs_def sample_files_def sample_listing_def get_def custom_index_def custom_document_def
  silent_handler_def

lemma sample_getFiles: "getFiles sample_env ''docs/notes'' = ([FileReaddir ''docs/notes''],
  Inr [\<lparr>Name = ''api'', IsDir = True\<rparr>, \<lparr>Name = ''guide.md'', IsDir = False\<rparr>,
       \<lparr>Name = ''internal.md'', IsDir = False\<rparr>])"
  by (simp add: getFiles_def sample_defs Sort_def Less_def HasPrefix_def isMarkdownFile_def Ext_def sep_def dot_def)

lemmas status_defs = StatusNotFound_def StatusForbidden_def StatusInternalServerError_def
  StatusTemporaryRedirect_def StatusText_def

lemmas eval_defs = ServeHTTP_def serve_entry_def after_render_def renderDocument_def
  renderIndex_def getFiles_def redirect_def request_url_def resolve_def
  defaultErrorHandler_def os_IsNotExist_def os_IsPermission_def status_defs
  isMarkdownFile_def Ext_def Base_def Clean_def backtrack_def at_end_or_sep_def
  HasPrefix_def HasSuffix_def Sort_def Less_def sep_def dot_def Let_def


lemma sample_notes_request:
  "request_url (get ''/notes'' q) = ''/notes''"
  "resolve sample_handler ''/notes'' = ''docs/notes''"
  "URL_RawQuery (get p q) = q"
  "Base ''/notes'' = ''notes''"
  by (simp_all add: sample_defs eval_defs)

lemma sample_file_request:
  "request_url (get ''/a.md/'' q) = ''/a.md/''"
  "resolve sample_handler ''/a.md/'' = ''docs/a.md''"
  "Base ''/a.md/'' = ''a.md''"
  by (simp_all add: sample_defs eval_defs)

lemma sample_dir_requests:
  "request_url (get ''/guide/'' q) = ''/guide/''"
  "resolve sample_handler ''/guide/'' = ''docs/guide''"
  "request_url (get ''/notes/'' q) = ''/notes/''"
  "resolve sample_handler ''/notes/'' = ''docs/notes''"
  by (simp_all add: sample_defs eval_defs)

lemma sample_entries:
  "os_Open sample_env ''docs/notes'' = None"
  "file_Stat sample_env ''docs/notes'' = Inr \<lparr>fi_Name = ''notes'', fi_IsDir = True, fi_ModTime = 1\<rparr>"
  "os_Open sample_env ''docs/notes/index.md'' = Some OsNotExist"
  "os_Open sample_env ''docs/a.md'' = None"
  "file_Stat sample_env ''docs/a.md'' = Inr \<lparr>fi_Name = ''a.md'', fi_IsDir = False, fi_ModTime = 2\<rparr>"
  "os_Open sample_env ''docs/guide'' = None"
  "file_Stat sample_env ''docs/guide'' = Inr \<lparr>fi_Name = ''guide'', fi_IsDir = True, fi_ModTime = 1\<rparr>"
  "os_Open sample_env ''docs/guide/index.md'' = None"
  "file_Stat sample_env ''docs/guide/index.md'' = Inr \<lparr>fi_Name = ''index.md'', fi_IsDir = False, fi_ModTime = 2\<rparr>"
  "ioutil_ReadAll sample_env ''docs/guide/index.md'' = Inr ''# Title''"
  "gfm_Markdown sample_env raw = ''<h1>Title</h1>''"
  by (simp_all add: sample_env_def sample_dirs_def sample_files_def Base_def sep_def)

lemma sample_handler_fields:
  "root sample_handler = ''/''"
  "documentRenderer sample_handler = Some (\<lambda>v. (''default doc'', None))"
  "indexRenderer sample_handler = Some (\<lambda>v. (''default index'', None))"
  by (simp_all add: sample_handler_def)

section \<open>The directory listing\<close>

text \<open>
  \<open>Less\<close> is a strict order whose incomparable elements are equal, so the permutation
  that \<open>sort.Sort\<close> produces is determined by its input, and \<open>Sort\<close> is that
  permutation.
\<close>


lemma Less_asym: "Less a b \<Longrightarrow> \<not> Less b a"
  by (auto simp: Less_def split: if_splits)

lemma not_Less_trans: "\<not> Less b a \<Longrightarrow> \<not> Less c b \<Longrightarrow> \<not> Less c a"
  by (auto simp: Less_def split: if_splits)

lemma not_Less_antisym: "\<not> Less a b \<Longrightarrow> \<not> Less b a \<Longrightarrow> a = (b::File)"
  by (cases "IsDir a"; cases "IsDir b") (auto simp: Less_def split: if_splits)

lemma not_Less_iff_listing_order: "\<not> Less b a \<longleftrightarrow> listing_order a b"
  by (auto simp: Less_def listing_order_def split: if_splits)

lemma set_insert_by_Less: "set (insert_by_Less x ys) = insert x (set ys)"
  by (induction ys) auto

lemma mset_insert_by_Less: "mset (insert_by_Less x ys) = add_mset x (mset ys)"
  by (induction ys) auto

lemma sorted_insert_by_Less:
  "sorted_wrt (\<lambda>a b. \<not> Less b a) ys \<Longrightarrow> sorted_wrt (\<lambda>a b. \<not> Less b a) (insert_by_Less x ys)"
proof (induction ys)
  case Nil
  then show ?case by simp
next
  case (Cons y ys)
  show ?case
  proof (cases "Less y x")
    case True
    with Cons show ?thesis
      by (auto simp: set_insert_by_Less dest: Less_asym)
  next
    case False
    with Cons.prems show ?thesis
      using not_Less_trans [of y x] by auto
  qed
qed

lemma mset_Sort: "mset (Sort v) = mset v"
  unfolding Sort_def by (induction v) (simp_all add: mset_insert_by_Less)

lemma set_Sort: "set (Sort v) = set v"
  unfolding Sort_def by (induction v) (simp_all add: set_insert_by_Less)

lemma sorted_Sort: "sorted_wrt (\<lambda>a b. \<not> Less b a) (Sort v)"
  unfolding Sort_def by (induction v) (simp_all add: sorted_insert_by_Less)

lemma Sort_unique:
  "mset ys = mset xs \<Longrightarrow> sorted_wrt (\<lambda>a b. \<not> Less b a) ys \<Longrightarrow>
   sorted_wrt (\<lambda>a b. \<not> Less b a) xs \<Longrightarrow> ys = xs"
proof (induction xs arbitrary: ys)
  case Nil
  then show ?case by simp
next
  case (Cons x xs)
  then obtain y ys' where ys: "ys = y # ys'"
    by (cases ys) auto
  have "x \<in> set ys" using Cons.prems(1) by (metis list.set_intros(1) set_mset_mset)
  then have 1: "\<not> Less x y"
    using Cons.prems(2) ys by (auto dest: Less_asym)
  have "y \<in> set (x # xs)" using Cons.prems(1) ys by (metis list.set_intros(1) set_mset_mset)
  then have 2: "\<not> Less y x"
    using Cons.prems(3) by (auto dest: Less_asym)
  have xy: "x = y" using 1 2 by (rule not_Less_antisym)
  with Cons.prems ys have "ys' = xs"
    by (intro Cons.IH) auto
  with xy ys show ?case by simp
qed

lemma Sort_is_the_sorted_permutation:
  "mset ys = mset v \<Longrightarrow> sorted_wrt (\<lambda>a b. \<not> Less b a) ys \<Longrightarrow> ys = Sort v"
  by (rule Sort_unique) (simp_all add: mset_Sort sorted_Sort)

lemma collect_files_visible: "x \<in> set (collect_files fis) \<Longrightarrow> \<not> HasPrefix (Name x) ''.''"
  by (induction fis) (auto simp: Let_def split: if_splits)

lemma collect_files_markdown:
  "x \<in> set (collect_files fis) \<Longrightarrow> \<not> IsDir x \<Longrightarrow> isMarkdownFile (Name x)"
  by (induction fis) (auto simp: Let_def split: if_splits)

lemma collect_files_complete:
  "fi \<in> set fis \<Longrightarrow> \<not> HasPrefix (fi_Name fi) ''.'' \<Longrightarrow> fi_IsDir fi \<or> isMarkdownFile (fi_Name fi) \<Longrightarrow>
   \<lparr>Name = fi_Name fi, IsDir = fi_IsDir fi\<rparr> \<in> set (collect_files fis)"
  by (induction fis) (auto simp: Let_def)

text \<open>
  C5: for every directory listing that \<open>getFiles\<close> returns, no entry has a name that
  starts with \<open>.\<close>; every entry that is not a directory has the extension \<open>.md\<close> or
  \<open>.markdown\<close>, compared byte for byte; and the entries are ordered with every directory
  before every file and, among the directories and among the files, by ascending name in the
  bytewise order of strings.
\<close>

theorem getFiles_listing:
  assumes "getFiles E f = (evs, Inr files)"
  shows "(\<forall>x \<in> set files. \<not> HasPrefix (Name x) ''.'')
       \<and> (\<forall>x \<in> set files. \<not> IsDir x \<longrightarrow> Ext (Name x) = ''.md'' \<or> Ext (Name x) = ''.markdown'')
       \<and> sorted_wrt listing_order files"
proof -
  from assms obtain fis where fis: "file_Readdir E f = Inr fis" and
    files: "files = Sort (collect_files fis)"
    by (auto simp: getFiles_def split: sum.splits)
  have "sorted_wrt (\<lambda>a b. \<not> Less b a) files"
    unfolding files by (rule sorted_Sort)
  then have "sorted_wrt listing_order files"
    by (simp add: not_Less_iff_listing_order)
  moreover have "\<forall>x \<in> set files. \<not> HasPrefix (Name x) ''.''"
    unfolding files set_Sort using collect_files_visible by blast
  moreover have "\<forall>x \<in> set files. \<not> IsDir x \<longrightarrow> Ext (Name x) = ''.md'' \<or> Ext (Name x) = ''.markdown''"
    unfolding files set_Sort using collect_files_markdown by (auto simp: isMarkdownFile_def Let_def)
  ultimately show ?thesis by blast
qed

theorem getFiles_listing_witness:
  "getFiles sample_env ''docs/notes'' =
     ([FileReaddir ''docs/notes''],
      Inr [\<lparr>Name = ''api'', IsDir = True\<rparr>, \<lparr>Name = ''guide.md'', IsDir = False\<rparr>,
           \<lparr>Name = ''internal.md'', IsDir = False\<rparr>])
   \<and> list_all (\<lambda>x. \<not> HasPrefix (Name x) ''.'')
         [\<lparr>Name = ''api'', IsDir = True\<rparr>, \<lparr>Name = ''guide.md'', IsDir = False\<rparr>,
          \<lparr>Name = ''internal.md'', IsDir = False\<rparr>]
   \<and> list_all (\<lambda>x. IsDir x \<or> Ext (Name x) = ''.md'' \<or> Ext (Name x) = ''.markdown'')
         [\<lparr>Name = ''api'', IsDir = True\<rparr>, \<lparr>Name = ''guide.md'', IsDir = False\<rparr>,
          \<lparr>Name = ''internal.md'', IsDir = False\<rparr>]
   \<and> sorted_wrt listing_order
         [\<lparr>Name = ''api'', IsDir = True\<rparr>, \<lparr>Name = ''guide.md'', IsDir = False\<rparr>,
          \<lparr>Name = ''internal.md'', IsDir = False\<rparr>]"
  using getFiles_listing [OF sample_getFiles] sample_getFiles
  unfolding list_all_iff by blast

section \<open>Construction\<close>



text \<open>
  Whatever the options are, the rendering functions of a handler that \<open>New\<close> returns are
  the default ones for its theme.
\<close>

lemma New_installs_default_renderers:
  assumes "New E d opts = Some h"
  shows "indexRenderer h = defaultIndexRenderer E (themeDir h)"
    and "documentRenderer h = defaultDocumentRenderer E (themeDir h)"
  using assms by (auto simp: New_def Let_def split: option.splits)

text \<open>
  C1 does not hold of the code. \<open>New\<close> applies the options first and then assigns the
  default renderers of the theme to both rendering fields, so a function given through
  \<open>IndexRenderer\<close> or \<open>DocumentRenderer\<close> is overwritten before any request is
  served. On the sample site, a handler built with both options serves the listing of
  \<open>/notes/\<close> and the document \<open>/a.md\<close> with the output of the default templates,
  not with the output of the functions supplied.
\<close>

theorem New_ignores_renderer_options:
  "map_option (\<lambda>h. ServeHTTP sample_env h (get ''/notes/'' []))
     (New sample_env ''docs'' [IndexRenderer custom_index, DocumentRenderer custom_document]) =
   Some [OsOpen ''docs/notes'', FileStat ''docs/notes'', OsOpen ''docs/notes/index.md'',
         FileReaddir ''docs/notes'',
         CallIndexRenderer
           \<lparr>l_root = ''/'', l_path = ''/notes/'', l_theme = [],
            Files = [\<lparr>Name = ''api'', IsDir = True\<rparr>, \<lparr>Name = ''guide.md'', IsDir = False\<rparr>,
                     \<lparr>Name = ''internal.md'', IsDir = False\<rparr>]\<rparr>,
         ServeContent ''docs/notes/index.md'' 1 ''default index'']
   \<and> map_option (\<lambda>h. ServeHTTP sample_env h (get ''/a.md'' []))
     (New sample_env ''docs'' [IndexRenderer custom_index, DocumentRenderer custom_document]) =
   Some [OsOpen ''docs/a.md'', FileStat ''docs/a.md'', ReadAll ''docs/a.md'',
         CallDocumentRenderer
           \<lparr>l_root = ''/'', l_path = ''/a.md'', l_theme = [],
            doc_Name = ''docs/a.md'', Content = ''<h1>Title</h1>''\<rparr>,
         ServeContent ''docs/a.md'' 2 ''default doc'']
   \<and> custom_index \<lparr>l_root = ''/'', l_path = ''/notes/'', l_theme = [],
            Files = [\<lparr>Name = ''api'', IsDir = True\<rparr>, \<lparr>Name = ''guide.md'', IsDir = False\<rparr>,
                     \<lparr>Name = ''internal.md'', IsDir = False\<rparr>]\<rparr> = (''custom index'', None)
   \<and> custom_document \<lparr>l_root = ''/'', l_path = ''/a.md'', l_theme = [],
            doc_Name = ''docs/a.md'', Content = ''<h1>Title</h1>''\<rparr> = (''custom doc'', None)"
  by (simp add: New_def defaultIndexRenderer_def defaultDocumentRenderer_def
      IndexRenderer_def DocumentRenderer_def defaultRoot_def defaultThemeDir_def Join_def
      strings_Join.simps sample_defs eval_defs)

section \<open>The default error handler\<close>

text \<open>
  C7: the default error handler answers the sentinel \<open>ErrNotFound\<close> and a failure that
  \<open>os.IsNotExist\<close> recognises with status 404, a failure that \<open>os.IsPermission\<close>
  recognises with status 403, and every other failure with status 500. In each case its
  only action is the call \<open>http.Error(w, http.StatusText(code), code)\<close>, which sends the
  status phrase alone as a plain-text body; nothing of the failure itself is sent.
\<close>

theorem defaultErrorHandler_status:
  "(err = ErrNotFound \<or> os_IsNotExist err \<longrightarrow>
      defaultErrorHandler req err = [HttpError ''Not Found'' 404])
   \<and> (os_IsPermission err \<longrightarrow> defaultErrorHandler req err = [HttpError ''Forbidden'' 403])
   \<and> (err \<noteq> ErrNotFound \<and> \<not> os_IsNotExist err \<and> \<not> os_IsPermission err \<longrightarrow>
      defaultErrorHandler req err = [HttpError ''Internal Server Error'' 500])"
  by (auto simp: defaultErrorHandler_def os_IsNotExist_def os_IsPermission_def status_defs)

theorem defaultErrorHandler_status_witness:
  "defaultErrorHandler (get ''/a'' []) ErrNotFound = [HttpError ''Not Found'' 404]
   \<and> defaultErrorHandler (get ''/a'' []) OsNotExist = [HttpError ''Not Found'' 404]
   \<and> defaultErrorHandler (get ''/a'' []) OsPermission = [HttpError ''Forbidden'' 403]
   \<and> defaultErrorHandler (get ''/a'' []) (OtherError ''read failed'') =
       [HttpError ''Internal Server Error'' 500]"
  using defaultErrorHandler_status [of ErrNotFound "get ''/a'' []"]
    defaultErrorHandler_status [of OsNotExist "get ''/a'' []"]
    defaultErrorHandler_status [of OsPermission "get ''/a'' []"]
    defaultErrorHandler_status [of "OtherError ''read failed''" "get ''/a'' []"]
  by (simp add: os_IsNotExist_def os_IsPermission_def)

section \<open>Documents\<close>

text \<open>
  C6: for a file whose extension is neither \<open>.md\<close> nor \<open>.markdown\<close>,
  \<open>renderDocument\<close> returns the sentinel \<open>ErrNotFound\<close> with an empty trace, that is,
  without reading the file and without calling the renderer; and the default error handler
  answers that sentinel with status 404.
\<close>

theorem renderDocument_not_markdown:
  assumes "Ext f \<noteq> ''.md''" and "Ext f \<noteq> ''.markdown''"
  shows "renderDocument E h f path = ([], Some ([], Some ErrNotFound))
       \<and> defaultErrorHandler req ErrNotFound = [HttpError ''Not Found'' 404]"
  using assms
  by (simp add: renderDocument_def isMarkdownFile_def defaultErrorHandler_def status_defs)

theorem renderDocument_not_markdown_witness:
  "Ext ''docs/a.txt'' \<noteq> ''.md'' \<and> Ext ''docs/a.txt'' \<noteq> ''.markdown''
   \<and> renderDocument sample_env sample_handler ''docs/a.txt'' ''/a.txt'' =
       ([], Some ([], Some ErrNotFound))
   \<and> defaultErrorHandler (get ''/a.txt'' []) ErrNotFound = [HttpError ''Not Found'' 404]"
proof -
  have e: "Ext ''docs/a.txt'' \<noteq> ''.md''" "Ext ''docs/a.txt'' \<noteq> ''.markdown''"
    by (simp_all add: Ext_def sep_def dot_def)
  show ?thesis
    using e renderDocument_not_markdown [OF e, of sample_env sample_handler "''/a.txt''" "get ''/a.txt'' []"]
    by simp
qed

section \<open>Dispatch\<close>

lemma Ext_index_md: "Ext (s @ ''/index.md'') = ''.md''"
  by (simp add: Ext_def sep_def dot_def)

lemma isMarkdownFile_index_md: "isMarkdownFile (s @ ''/index.md'')"
  by (simp add: isMarkdownFile_def Ext_index_md)

lemma HasSuffix_sep: "HasSuffix s ''/'' \<longleftrightarrow> (s \<noteq> [] \<and> last s = sep)"
proof (cases s rule: rev_cases)
  case Nil
  then show ?thesis by (simp add: HasSuffix_def)
next
  case (snoc ys y)
  then show ?thesis by (auto simp: HasSuffix_def sep_def)
qed

lemma HasPrefix_sep: "HasPrefix s ''/'' \<longleftrightarrow> (s \<noteq> [] \<and> hd s = sep)"
  by (cases s) (auto simp: HasPrefix_def sep_def)

lemma request_url_rooted: "request_url req \<noteq> [] \<and> hd (request_url req) = sep"
  by (auto simp: request_url_def Let_def HasPrefix_sep sep_def)

lemma Base_last_segment:
  assumes "url \<noteq> []" "hd url = sep" "last url \<noteq> sep"
  shows "(\<exists>pre. url = pre @ sep # Base url) \<and> Base url \<noteq> [] \<and> sep \<notin> set (Base url)"
proof -
  let ?r = "rev url"
  have r: "?r \<noteq> []" "hd ?r \<noteq> sep"
    using assms by (simp_all add: hd_rev)
  then have strip: "dropWhile (\<lambda>c. c = sep) ?r = ?r"
    by (cases ?r) auto
  have tw: "takeWhile (\<lambda>c. c \<noteq> sep) ?r \<noteq> []"
    using r by (cases ?r) auto
  then have base: "Base url = rev (takeWhile (\<lambda>c. c \<noteq> sep) ?r)"
    using assms(1) strip by (simp add: Base_def Let_def)
  have "sep \<in> set ?r"
    using assms(1,2) by (cases url) auto
  then have dw: "dropWhile (\<lambda>c. c \<noteq> sep) ?r \<noteq> []" "hd (dropWhile (\<lambda>c. c \<noteq> sep) ?r) = sep"
    using hd_dropWhile [of "\<lambda>c. c \<noteq> sep" ?r] by (auto simp: dropWhile_eq_Nil_conv)
  then obtain ds where ds: "dropWhile (\<lambda>c. c \<noteq> sep) ?r = sep # ds"
    by (cases "dropWhile (\<lambda>c. c \<noteq> sep) ?r") auto
  have "?r = takeWhile (\<lambda>c. c \<noteq> sep) ?r @ sep # ds"
    using takeWhile_dropWhile_id [of "\<lambda>c. c \<noteq> sep" ?r] ds by simp
  then have "rev ?r = rev (takeWhile (\<lambda>c. c \<noteq> sep) ?r @ sep # ds)"
    by simp
  then have "url = rev ds @ sep # Base url"
    using base by simp
  moreover have "sep \<notin> set (Base url)"
    unfolding base using set_takeWhileD [of sep "\<lambda>c. c \<noteq> sep" ?r] by auto
  moreover have "Base url \<noteq> []"
    using base tw by simp
  ultimately show ?thesis by blast
qed

text \<open>
  C3: when the request URL resolves to a directory and does not end with a separator, the
  handler opens and stats the entry and then only sets the \<open>Location\<close> header and
  writes status 307: nothing is read or rendered and no error handler runs. The location
  is the last segment of the URL path (what follows its last separator, which is not empty
  and holds no separator) with one separator appended, followed by \<open>?\<close> and the raw
  query when the query is not empty.
\<close>

theorem directory_without_separator_redirects:
  assumes "os_Open E (resolve h (request_url req)) = None"
    and "file_Stat E (resolve h (request_url req)) = Inr fi"
    and "fi_IsDir fi"
    and "\<not> HasSuffix (request_url req) ''/''"
  shows "ServeHTTP E h req =
           [OsOpen (resolve h (request_url req)), FileStat (resolve h (request_url req)),
            HeaderSet ''Location''
              (Base (request_url req) @ ''/'' @
               (if URL_RawQuery req = [] then [] else ''?'' @ URL_RawQuery req)),
            WriteHeader 307]
       \<and> (\<exists>pre. request_url req = pre @ ''/'' @ Base (request_url req))
       \<and> Base (request_url req) \<noteq> []
       \<and> CHR ''/'' \<notin> set (Base (request_url req))"
proof -
  have "last (request_url req) \<noteq> sep"
    using assms(4) request_url_rooted [of req] by (simp add: HasSuffix_sep)
  then have "(\<exists>pre. request_url req = pre @ sep # Base (request_url req))
      \<and> Base (request_url req) \<noteq> [] \<and> sep \<notin> set (Base (request_url req))"
    using request_url_rooted [of req] by (intro Base_last_segment) simp_all
  moreover have "ServeHTTP E h req =
           [OsOpen (resolve h (request_url req)), FileStat (resolve h (request_url req)),
            HeaderSet ''Location''
              (Base (request_url req) @ ''/'' @
               (if URL_RawQuery req = [] then [] else ''?'' @ URL_RawQuery req)),
            WriteHeader 307]"
    using assms by (simp add: ServeHTTP_def Let_def redirect_def StatusTemporaryRedirect_def)
  ultimately show ?thesis by (simp add: sep_def)
qed

theorem directory_without_separator_redirects_witness:
  "os_Open sample_env (resolve sample_handler (request_url (get ''/notes'' ''x=1''))) = None
   \<and> file_Stat sample_env (resolve sample_handler (request_url (get ''/notes'' ''x=1''))) =
       Inr \<lparr>fi_Name = ''notes'', fi_IsDir = True, fi_ModTime = 1\<rparr>
   \<and> \<not> HasSuffix (request_url (get ''/notes'' ''x=1'')) ''/''
   \<and> ServeHTTP sample_env sample_handler (get ''/notes'' ''x=1'') =
       [OsOpen ''docs/notes'', FileStat ''docs/notes'',
        HeaderSet ''Location'' ''notes/?x=1'', WriteHeader 307]"
proof -
  have opened: "os_Open sample_env (resolve sample_handler (request_url (get ''/notes'' ''x=1''))) = None"
    by (simp add: sample_notes_request sample_entries)
  have stat: "file_Stat sample_env (resolve sample_handler (request_url (get ''/notes'' ''x=1''))) =
      Inr \<lparr>fi_Name = ''notes'', fi_IsDir = True, fi_ModTime = 1\<rparr>"
    by (simp add: sample_notes_request sample_entries)
  have isdir: "fi_IsDir \<lparr>fi_Name = ''notes'', fi_IsDir = True, fi_ModTime = 1\<rparr>"
    by simp
  have nosep: "\<not> HasSuffix (request_url (get ''/notes'' ''x=1'')) ''/''"
    by (simp add: sample_notes_request HasSuffix_def)
  show ?thesis
    using directory_without_separator_redirects [OF opened stat isdir nosep] opened stat nosep
    by (simp add: sample_notes_request)
qed

text \<open>
  C4 does not hold as it is stated: the location is \<open>../\<close> followed by the base name
  of the URL path only when the request has no query. \<open>redirect\<close> is shared with the
  redirect of directories and appends the query to every location. The request
  \<open>/a.md/?x=1\<close> for the file \<open>a.md\<close> is redirected to \<open>../a.md?x=1\<close>.
\<close>

theorem file_with_separator_location_counterexample:
  "os_Open sample_env (resolve sample_handler (request_url (get ''/a.md/'' ''x=1''))) = None
   \<and> file_Stat sample_env (resolve sample_handler (request_url (get ''/a.md/'' ''x=1''))) =
       Inr \<lparr>fi_Name = ''a.md'', fi_IsDir = False, fi_ModTime = 2\<rparr>
   \<and> HasSuffix (request_url (get ''/a.md/'' ''x=1'')) ''/''
   \<and> ''../'' @ Base (request_url (get ''/a.md/'' ''x=1'')) = ''../a.md''
   \<and> ServeHTTP sample_env sample_handler (get ''/a.md/'' ''x=1'') =
       [OsOpen ''docs/a.md'', FileStat ''docs/a.md'',
        HeaderSet ''Location'' ''../a.md?x=1'', WriteHeader 307]
   \<and> HeaderSet ''Location'' (''../'' @ Base (request_url (get ''/a.md/'' ''x=1'')))
       \<notin> set (ServeHTTP sample_env sample_handler (get ''/a.md/'' ''x=1''))"
  by (simp add: sample_defs eval_defs)

text \<open>
  C4, amended: when the request URL ends with a separator and resolves to a regular file
  (the implicit index is tried for directories only, so such an entry is never one), the
  handler opens and stats the entry and then only sets the \<open>Location\<close> header and writes
  status 307. The location is \<open>../\<close> followed by the base name of the URL path,
  followed by \<open>?\<close> and the raw query when the query is not empty.
\<close>

theorem file_with_separator_redirects:
  assumes "os_Open E (resolve h (request_url req)) = None"
    and "file_Stat E (resolve h (request_url req)) = Inr fi"
    and "\<not> fi_IsDir fi"
    and "HasSuffix (request_url req) ''/''"
  shows "ServeHTTP E h req =
           [OsOpen (resolve h (request_url req)), FileStat (resolve h (request_url req)),
            HeaderSet ''Location''
              (''../'' @ Base (request_url req) @
               (if URL_RawQuery req = [] then [] else ''?'' @ URL_RawQuery req)),
            WriteHeader 307]"
  using assms
  by (simp add: ServeHTTP_def Let_def serve_entry_def redirect_def StatusTemporaryRedirect_def)

theorem file_with_separator_redirects_witness:
  "os_Open sample_env (resolve sample_handler (request_url (get ''/a.md/'' []))) = None
   \<and> file_Stat sample_env (resolve sample_handler (request_url (get ''/a.md/'' []))) =
       Inr \<lparr>fi_Name = ''a.md'', fi_IsDir = False, fi_ModTime = 2\<rparr>
   \<and> HasSuffix (request_url (get ''/a.md/'' [])) ''/''
   \<and> ServeHTTP sample_env sample_handler (get ''/a.md/'' []) =
       [OsOpen ''docs/a.md'', FileStat ''docs/a.md'',
        HeaderSet ''Location'' ''../a.md'', WriteHeader 307]
   \<and> ServeHTTP sample_env sample_handler (get ''/a.md/'' ''x=1'') =
       [OsOpen ''docs/a.md'', FileStat ''docs/a.md'',
        HeaderSet ''Location'' ''../a.md?x=1'', WriteHeader 307]"
proof -
  have opened: "os_Open sample_env (resolve sample_handler (request_url (get ''/a.md/'' q))) = None" for q
    by (simp add: sample_file_request sample_entries)
  have stat: "file_Stat sample_env (resolve sample_handler (request_url (get ''/a.md/'' q))) =
      Inr \<lparr>fi_Name = ''a.md'', fi_IsDir = False, fi_ModTime = 2\<rparr>" for q
    by (simp add: sample_file_request sample_entries)
  have nodir: "\<not> fi_IsDir \<lparr>fi_Name = ''a.md'', fi_IsDir = False, fi_ModTime = 2\<rparr>"
    by simp
  have hassep: "HasSuffix (request_url (get ''/a.md/'' q)) ''/''" for q
    by (simp add: sample_file_request HasSuffix_def)
  show ?thesis
    using file_with_separator_redirects [OF opened stat nodir hassep, of "[]"]
      file_with_separator_redirects [OF opened stat nodir hassep, of "''x=1''"]
      opened [of "[]"] stat [of "[]"] hassep [of "[]"]
    by (simp add: sample_file_request sample_notes_request(3))
qed

text \<open>
  C9: let the request URL end with a separator and resolve to a directory. If
  \<open>index.md\<close> in that directory opens, is a regular file and can be read, the handler
  reads it and calls the document renderer on a page whose logical path is the URL of the
  directory; the entries of the directory are not read and the index renderer is not
  called. If opening \<open>index.md\<close> fails, the handler goes on to \<open>renderIndex\<close> on the
  directory itself.
\<close>

theorem implicit_index:
  assumes "os_Open E (resolve h (request_url req)) = None"
    and "file_Stat E (resolve h (request_url req)) = Inr fi"
    and "fi_IsDir fi"
    and "HasSuffix (request_url req) ''/''"
  shows "(os_Open E (resolve h (request_url req) @ ''/index.md'') = None \<and>
          file_Stat E (resolve h (request_url req) @ ''/index.md'') = Inr ffi \<and>
          \<not> fi_IsDir ffi \<and>
          ioutil_ReadAll E (resolve h (request_url req) @ ''/index.md'') = Inr raw \<and>
          documentRenderer h = Some fn \<longrightarrow>
          ServeHTTP E h req =
            [OsOpen (resolve h (request_url req)), FileStat (resolve h (request_url req)),
             OsOpen (resolve h (request_url req) @ ''/index.md''),
             FileStat (resolve h (request_url req) @ ''/index.md'')]
            @ after_render h req (resolve h (request_url req) @ ''/index.md'') ffi
                ([ReadAll (resolve h (request_url req) @ ''/index.md''),
                  CallDocumentRenderer
                    \<lparr>l_root = root h, l_path = request_url req, l_theme = [],
                     doc_Name = resolve h (request_url req) @ ''/index.md'',
                     Content = gfm_Markdown E raw\<rparr>],
                 Some (fn \<lparr>l_root = root h, l_path = request_url req, l_theme = [],
                           doc_Name = resolve h (request_url req) @ ''/index.md'',
                           Content = gfm_Markdown E raw\<rparr>)))
       \<and> (os_Open E (resolve h (request_url req) @ ''/index.md'') = Some err \<longrightarrow>
          ServeHTTP E h req =
            [OsOpen (resolve h (request_url req)), FileStat (resolve h (request_url req)),
             OsOpen (resolve h (request_url req) @ ''/index.md'')]
            @ after_render h req (resolve h (request_url req) @ ''/index.md'') fi
                (renderIndex E h (resolve h (request_url req)) (request_url req)))"
  using assms
  by (simp add: ServeHTTP_def Let_def serve_entry_def renderDocument_def isMarkdownFile_index_md)

theorem implicit_index_witness:
  "ServeHTTP sample_env sample_handler (get ''/guide/'' []) =
     [OsOpen ''docs/guide'', FileStat ''docs/guide'',
      OsOpen ''docs/guide/index.md'', FileStat ''docs/guide/index.md'',
      ReadAll ''docs/guide/index.md'',
      CallDocumentRenderer
        \<lparr>l_root = ''/'', l_path = ''/guide/'', l_theme = [],
         doc_Name = ''docs/guide/index.md'', Content = ''<h1>Title</h1>''\<rparr>,
      ServeContent ''docs/guide/index.md'' 2 ''default doc'']
   \<and> ServeHTTP sample_env sample_handler (get ''/notes/'' []) =
     [OsOpen ''docs/notes'', FileStat ''docs/notes'', OsOpen ''docs/notes/index.md'',
      FileReaddir ''docs/notes'',
      CallIndexRenderer
        \<lparr>l_root = ''/'', l_path = ''/notes/'', l_theme = [],
         Files = [\<lparr>Name = ''api'', IsDir = True\<rparr>, \<lparr>Name = ''guide.md'', IsDir = False\<rparr>,
                  \<lparr>Name = ''internal.md'', IsDir = False\<rparr>]\<rparr>,
      ServeContent ''docs/notes/index.md'' 1 ''default index'']"
proof -
  let ?dir = "\<lparr>fi_Name = ''guide'', fi_IsDir = True, fi_ModTime = 1\<rparr>"
  let ?idx = "\<lparr>fi_Name = ''index.md'', fi_IsDir = False, fi_ModTime = 2\<rparr>"
  let ?notes = "\<lparr>fi_Name = ''notes'', fi_IsDir = True, fi_ModTime = 1\<rparr>"
  have g1: "os_Open sample_env (resolve sample_handler (request_url (get ''/guide/'' []))) = None"
    by (simp add: sample_dir_requests sample_entries)
  have g2: "file_Stat sample_env (resolve sample_handler (request_url (get ''/guide/'' []))) = Inr ?dir"
    by (simp add: sample_dir_requests sample_entries)
  have g3: "fi_IsDir ?dir"
    by simp
  have g4: "HasSuffix (request_url (get ''/guide/'' [])) ''/''"
    by (simp add: sample_dir_requests HasSuffix_def)
  have g5: "os_Open sample_env (resolve sample_handler (request_url (get ''/guide/'' []))
        @ ''/index.md'') = None
      \<and> file_Stat sample_env (resolve sample_handler (request_url (get ''/guide/'' []))
        @ ''/index.md'') = Inr ?idx
      \<and> \<not> fi_IsDir ?idx
      \<and> ioutil_ReadAll sample_env (resolve sample_handler (request_url (get ''/guide/'' []))
        @ ''/index.md'') = Inr ''# Title''
      \<and> documentRenderer sample_handler = Some (\<lambda>v. (''default doc'', None))"
    by (simp add: sample_dir_requests sample_entries sample_handler_fields)
  have n1: "os_Open sample_env (resolve sample_handler (request_url (get ''/notes/'' []))) = None"
    by (simp add: sample_dir_requests sample_entries)
  have n2: "file_Stat sample_env (resolve sample_handler (request_url (get ''/notes/'' []))) = Inr ?notes"
    by (simp add: sample_dir_requests sample_entries)
  have n3: "fi_IsDir ?notes"
    by simp
  have n4: "HasSuffix (request_url (get ''/notes/'' [])) ''/''"
    by (simp add: sample_dir_requests HasSuffix_def)
  have n5: "os_Open sample_env (resolve sample_handler (request_url (get ''/notes/'' []))
        @ ''/index.md'') = Some OsNotExist"
    by (simp add: sample_dir_requests sample_entries)
  have listing: "renderIndex sample_env sample_handler ''docs/notes'' ''/notes/'' =
      ([FileReaddir ''docs/notes'',
        CallIndexRenderer
          \<lparr>l_root = ''/'', l_path = ''/notes/'', l_theme = [],
           Files = [\<lparr>Name = ''api'', IsDir = True\<rparr>, \<lparr>Name = ''guide.md'', IsDir = False\<rparr>,
                    \<lparr>Name = ''internal.md'', IsDir = False\<rparr>]\<rparr>],
       Some (''default index'', None))"
    by (simp add: renderIndex_def sample_getFiles sample_handler_fields)
  show ?thesis
    using implicit_index [OF g1 g2 g3 g4, of ?idx "''# Title''" "\<lambda>v. (''default doc'', None)"] g5
      implicit_index [OF n1 n2 n3 n4, of _ _ _ OsNotExist] n5
    by (simp add: sample_dir_requests sample_entries sample_handler_fields listing after_render_def)
qed

text \<open>
  C2 does not hold of the code. After \<open>renderIndex\<close> or \<open>renderDocument\<close> has failed,
  \<open>ServeHTTP\<close> calls the error handler and does not return, as it does after a failed
  open or stat: control reaches \<open>http.ServeContent\<close>, which is called on the same
  response writer with the empty content. The request \<open>/a.txt\<close> for an existing file
  that is not Markdown gets the error response of the default error handler and then the
  call of \<open>http.ServeContent\<close>; with an error handler that writes nothing, the call of
  \<open>http.ServeContent\<close> is all that the response receives.
\<close>

theorem ServeContent_after_error_handler:
  "ServeHTTP sample_env sample_handler (get ''/a.txt'' []) =
     [OsOpen ''docs/a.txt'', FileStat ''docs/a.txt'', CallErrorHandler ErrNotFound,
      HttpError ''Not Found'' 404, ServeContent ''docs/a.txt'' 2 []]
   \<and> map_option (\<lambda>h. ServeHTTP sample_env h (get ''/a.txt'' []))
       (New sample_env ''docs'' [ErrorHandler silent_handler]) =
     Some [OsOpen ''docs/a.txt'', FileStat ''docs/a.txt'', CallErrorHandler ErrNotFound,
           ServeContent ''docs/a.txt'' 2 []]"
  by (simp add: New_def defaultIndexRenderer_def defaultDocumentRenderer_def
      ErrorHandler_def defaultRoot_def defaultThemeDir_def Join_def
      sample_defs eval_defs)

section \<open>Path resolution\<close>

lemma at_end_or_sep_iff: "at_end_or_sep s \<longleftrightarrow> takeWhile (\<lambda>x. x \<noteq> sep) s = []"
  by (cases s) (auto simp: at_end_or_sep_def)

lemma rooted_path_snoc:
  "rooted_path (segs @ [s]) = (if segs = [] then [] else rooted_path segs) @ sep # s"
  by (simp add: rooted_path_def)

lemma length_rooted_path:
  "list_all clean_segment segs \<Longrightarrow> segs \<noteq> [] \<Longrightarrow> 1 < length (rooted_path segs)"
  by (cases segs) (auto simp: rooted_path_def clean_segment_def Suc_le_eq)

lemma back_loop_stops_at_root:
  "sep \<notin> set s \<Longrightarrow> 1 \<le> k \<Longrightarrow> k \<le> length s \<Longrightarrow> back_loop 1 (sep # s) k = [sep]"
proof (induction k)
  case 0
  then show ?case by simp
next
  case (Suc k)
  show ?case
  proof (cases "k = 0")
    case True
    then show ?thesis by simp
  next
    case False
    have "s ! k \<noteq> sep"
      using Suc.prems by (metis Suc_le_lessD nth_mem)
    with False Suc show ?thesis by simp
  qed
qed

lemma back_loop_skips_segment:
  "sep \<notin> set s \<Longrightarrow> k \<le> length s \<Longrightarrow> d \<le> length P \<Longrightarrow>
   back_loop d (P @ sep # s) (length P + k) = P"
proof (induction k)
  case 0
  then show ?case by simp
next
  case (Suc k)
  have "s ! k \<noteq> sep"
    using Suc.prems by (metis Suc_le_lessD nth_mem)
  then have "(P @ sep # s) ! (length P + Suc k) \<noteq> sep"
    by (simp add: nth_append)
  moreover have "length P + Suc k > d"
    using Suc.prems by simp
  ultimately have "back_loop d (P @ sep # s) (length P + Suc k) =
      back_loop d (P @ sep # s) (length P + k)"
    by (subst back_loop.simps) simp
  with Suc show ?case by simp
qed

lemma backtrack_rooted_path:
  assumes "list_all clean_segment (segs @ [s])"
  shows "backtrack 1 (rooted_path (segs @ [s])) = rooted_path segs"
proof (cases "segs = []")
  case True
  have "sep \<notin> set s" "1 \<le> length s"
    using assms by (auto simp: clean_segment_def Suc_le_eq)
  then have "back_loop 1 (sep # s) (length s) = [sep]"
    by (intro back_loop_stops_at_root) simp_all
  with True show ?thesis
    by (simp add: backtrack_def rooted_path_def)
next
  case False
  have s: "sep \<notin> set s"
    using assms by (auto simp: clean_segment_def)
  have "1 < length (rooted_path segs)"
    using assms False by (intro length_rooted_path) simp_all
  then have "back_loop 1 (rooted_path segs @ sep # s) (length (rooted_path segs) + length s)
      = rooted_path segs"
    using s by (intro back_loop_skips_segment) simp_all
  with False show ?thesis
    by (simp add: backtrack_def rooted_path_snoc)
qed

lemma element_is_clean:
  assumes "c \<noteq> sep" and "\<not> (c = dot \<and> at_end_or_sep rest)"
    and "\<not> (c = dot \<and> rest \<noteq> [] \<and> hd rest = dot \<and> at_end_or_sep (tl rest))"
  shows "clean_segment (takeWhile (\<lambda>x. x \<noteq> sep) (c # rest))"
proof -
  let ?e = "takeWhile (\<lambda>x. x \<noteq> sep) (c # rest)"
  have e: "?e = c # takeWhile (\<lambda>x. x \<noteq> sep) rest"
    using assms(1) by simp
  have "sep \<notin> set ?e"
    using set_takeWhileD [of sep "\<lambda>x. x \<noteq> sep"] by blast
  moreover have "?e \<noteq> []"
    using e by simp
  moreover have "?e \<noteq> ''.''"
    using assms(2) e by (auto simp: at_end_or_sep_iff dot_def)
  moreover have "?e \<noteq> ''..''"
  proof
    assume "?e = ''..''"
    then have "c # takeWhile (\<lambda>x. x \<noteq> sep) rest = [dot, dot]"
      unfolding e by (simp add: dot_def)
    then have c: "c = dot" and t: "takeWhile (\<lambda>x. x \<noteq> sep) rest = [dot]"
      by auto
    then obtain r rs where rest: "rest = r # rs"
      by (cases rest) auto
    with t have "r = dot" "takeWhile (\<lambda>x. x \<noteq> sep) rs = []"
      by (auto split: if_splits)
    with c rest assms(3) show False
      by (simp add: at_end_or_sep_iff)
  qed
  ultimately show ?thesis
    by (simp add: clean_segment_def)
qed

lemma segments_not_Nil: "segments p \<noteq> []"
  by (cases p) (auto split: list.splits)

lemma segments_split:
  "\<exists>T. segments p = takeWhile (\<lambda>x. x \<noteq> sep) p # T
       \<and> segments (dropWhile (\<lambda>x. x \<noteq> sep) p) = [] # T"
proof (induction p)
  case Nil
  then show ?case by simp
next
  case (Cons c cs)
  then obtain T where T: "segments cs = takeWhile (\<lambda>x. x \<noteq> sep) cs # T"
      "segments (dropWhile (\<lambda>x. x \<noteq> sep) cs) = [] # T"
    by blast
  show ?case
  proof (cases "c = sep")
    case True
    then show ?thesis by simp
  next
    case False
    with T show ?thesis by simp
  qed
qed

lemma segments_no_sep: "s \<in> set (segments p) \<Longrightarrow> sep \<notin> set s"
proof (induction p arbitrary: s)
  case Nil
  then show ?case by simp
next
  case (Cons c cs)
  obtain x xs where x: "segments cs = x # xs"
    using segments_not_Nil [of cs] by (cases "segments cs") auto
  with Cons show ?case
    by (auto split: if_splits)
qed

lemma resolve_segments_clean:
  "list_all clean_segment kept \<Longrightarrow> \<forall>s \<in> set ss. sep \<notin> set s \<Longrightarrow>
   list_all clean_segment (resolve_segments kept ss)"
proof (induction kept ss rule: resolve_segments.induct)
  case (1 kept)
  then show ?case by simp
next
  case (2 kept s ss)
  have rest: "\<forall>s \<in> set ss. sep \<notin> set s"
    using "2.prems"(2) by simp
  consider (skip) "s = [] \<or> s = ''.''" | (up) "\<not> (s = [] \<or> s = ''.'')" "s = ''..''"
    | (push) "\<not> (s = [] \<or> s = ''.'')" "s \<noteq> ''..''"
    by blast
  then show ?case
  proof cases
    case skip
    then show ?thesis
      using "2.IH"(1) [OF skip "2.prems"(1) rest] by simp
  next
    case up
    have "list_all clean_segment (butlast kept)"
      using "2.prems"(1) by (auto simp: list_all_iff dest: in_set_butlastD)
    then show ?thesis
      using "2.IH"(2) [OF up _ rest] up by simp
  next
    case push
    have "clean_segment s"
      using push "2.prems"(2) by (simp add: clean_segment_def)
    then have "list_all clean_segment (kept @ [s])"
      using "2.prems"(1) by simp
    then show ?thesis
      using "2.IH"(3) [OF push _ rest] push by simp
  qed
qed

lemma Clean_loop_refines:
  "list_all clean_segment kept \<Longrightarrow>
   Clean_loop True 1 (rooted_path kept) p = rooted_path (resolve_segments kept (segments p))"
proof (induction "length p" arbitrary: p kept rule: less_induct)
  case less
  show ?case
  proof (cases p)
    case Nil
    then show ?thesis by simp
  next
    case (Cons c rest)
    let ?out = "rooted_path kept"
    have IH: "Clean_loop True 1 (rooted_path k) q = rooted_path (resolve_segments k (segments q))"
      if "length q < length p" "list_all clean_segment k" for q k
      using less.hyps that by blast
    obtain T where T: "segments p = takeWhile (\<lambda>x. x \<noteq> sep) p # T"
        "segments (dropWhile (\<lambda>x. x \<noteq> sep) p) = [] # T"
      using segments_split by blast
    have tl_short: "length (tl rest) < length p"
      using Cons by (cases rest) auto
    consider (slash) "c = sep"
      | (dot) "c \<noteq> sep" "c = dot \<and> at_end_or_sep rest"
      | (dotdot) "c \<noteq> sep" "\<not> (c = dot \<and> at_end_or_sep rest)"
          "c = dot \<and> rest \<noteq> [] \<and> hd rest = dot \<and> at_end_or_sep (tl rest)"
      | (elem) "c \<noteq> sep" "\<not> (c = dot \<and> at_end_or_sep rest)"
          "\<not> (c = dot \<and> rest \<noteq> [] \<and> hd rest = dot \<and> at_end_or_sep (tl rest))"
      by blast
    then show ?thesis
    proof cases
      case slash
      then have "Clean_loop True 1 ?out p = Clean_loop True 1 ?out rest"
        using Cons by simp
      moreover have "resolve_segments kept (segments p) = resolve_segments kept (segments rest)"
        using Cons slash by simp
      ultimately show ?thesis
        using IH [of rest kept] less.prems Cons by simp
    next
      case dot
      then have "Clean_loop True 1 ?out p = Clean_loop True 1 ?out rest"
        using Cons by simp
      moreover have "takeWhile (\<lambda>x. x \<noteq> sep) p = ''.''" "dropWhile (\<lambda>x. x \<noteq> sep) p = rest"
        using Cons dot by (cases rest; simp add: at_end_or_sep_def dot_def sep_def)+
      then have "resolve_segments kept (segments p) = resolve_segments kept (segments rest)"
        using T by simp
      ultimately show ?thesis
        using IH [of rest kept] less.prems Cons by simp
    next
      case dotdot
      then obtain r where rest: "rest = dot # r" "at_end_or_sep r"
        by (cases rest) auto
      have "takeWhile (\<lambda>x. x \<noteq> sep) p = ''..''" "dropWhile (\<lambda>x. x \<noteq> sep) p = r"
        using Cons dotdot rest by (cases r; simp add: at_end_or_sep_def dot_def sep_def)+
      then have spec: "resolve_segments kept (segments p) =
          resolve_segments (butlast kept) (segments (tl rest))"
        using T rest by simp
      have b: "list_all clean_segment (butlast kept)"
        using less.prems by (auto simp: list_all_iff dest: in_set_butlastD)
      show ?thesis
      proof (cases "kept = []")
        case True
        then have "Clean_loop True 1 ?out p = Clean_loop True 1 ?out (tl rest)"
          using Cons dotdot by (simp add: rooted_path_def)
        with IH [of "tl rest" kept] less.prems tl_short spec True show ?thesis by simp
      next
        case False
        then obtain bs l where kept: "kept = bs @ [l]"
          by (cases kept rule: rev_cases) auto
        have "1 < length ?out"
          using less.prems False by (rule length_rooted_path)
        then have "Clean_loop True 1 ?out p = Clean_loop True 1 (backtrack 1 ?out) (tl rest)"
          using Cons dotdot by simp
        also have "backtrack 1 ?out = rooted_path bs"
          using less.prems unfolding kept by (rule backtrack_rooted_path)
        finally show ?thesis
          using IH [of "tl rest" bs] b tl_short spec kept by simp
      qed
    next
      case elem
      let ?e = "takeWhile (\<lambda>x. x \<noteq> sep) (c # rest)"
      let ?q = "dropWhile (\<lambda>x. x \<noteq> sep) (c # rest)"
      have e: "clean_segment ?e"
        using elem by (rule element_is_clean)
      then have "resolve_segments kept (?e # T) = resolve_segments (kept @ [?e]) T"
        unfolding clean_segment_def by (subst resolve_segments.simps) (simp only: if_False simp_thms)
      then have spec: "resolve_segments kept (segments p) =
          resolve_segments (kept @ [?e]) (segments ?q)"
        using T unfolding Cons by simp
      have "length ?out \<noteq> 1 \<longleftrightarrow> kept \<noteq> []"
        using length_rooted_path [OF less.prems] by (auto simp: rooted_path_def)
      then have out: "(if True \<and> length ?out \<noteq> 1 \<or> \<not> True \<and> length ?out \<noteq> 0
                  then ?out @ [sep] else ?out) @ ?e = rooted_path (kept @ [?e])"
        by (simp add: rooted_path_snoc) (simp add: rooted_path_def)
      have "Clean_loop True 1 ?out (c # rest) =
          Clean_loop True 1
            ((if True \<and> length ?out \<noteq> 1 \<or> \<not> True \<and> length ?out \<noteq> 0
              then ?out @ [sep] else ?out) @ ?e) ?q"
        by (subst Clean_loop.simps) (simp only: elem if_False Let_def)
      then have "Clean_loop True 1 ?out p = Clean_loop True 1 (rooted_path (kept @ [?e])) ?q"
        unfolding out Cons .
      moreover have "length ?q < length p"
        using Cons elem(1) length_dropWhile_le [of "\<lambda>x. x \<noteq> sep" rest] by simp
      moreover have "list_all clean_segment (kept @ [?e])"
        using less.prems e by simp
      ultimately show ?thesis
        using IH [of ?q "kept @ [?e]"] spec by simp
    qed
  qed
qed

lemma Clean_refines:
  assumes "url \<noteq> []" "hd url = sep"
  shows "Clean url = lexical_clean url"
proof -
  obtain p where url: "url = sep # p"
    using assms by (cases url) auto
  have "Clean_loop True 1 (rooted_path []) p = rooted_path (resolve_segments [] (segments p))"
    by (rule Clean_loop_refines) simp
  moreover have "rooted_path (resolve_segments [] (segments p)) \<noteq> []"
    by (cases "resolve_segments [] (segments p)") (simp_all add: rooted_path_def)
  ultimately show ?thesis
    using url by (simp add: Clean_def lexical_clean_def rooted_path_def Let_def)
qed

text \<open>
  C8: the request path is given a leading separator when it has none. The resolved name is
  the base directory when that path is \<open>/\<close>, and otherwise the base directory followed
  by the lexical cleaning of that path; \<open>path.Clean\<close> computes this lexical cleaning:
  with \<open>.\<close> and \<open>..\<close> resolved against the segments of the request path and repeated
  separators collapsed. The segments kept are clean (not empty, without separator, neither
  \<open>.\<close> nor \<open>..\<close>), so the resolved name is the base directory followed by segments
  that never step upwards. Resolution is a function of the handler and the request alone;
  the first access to the file system is the opening of the resolved name.
\<close>

theorem resolve_inside_base:
  "request_url req =
     (if HasPrefix (URL_Path req) ''/'' then URL_Path req else ''/'' @ URL_Path req)
   \<and> resolve h (request_url req) =
     (if request_url req = ''/'' then dir h else dir h @ lexical_clean (request_url req))
   \<and> Clean (request_url req) = lexical_clean (request_url req)
   \<and> list_all clean_segment (resolve_segments [] (segments (request_url req)))
   \<and> hd (ServeHTTP E h req) = OsOpen (resolve h (request_url req))"
proof -
  have c: "Clean (request_url req) = lexical_clean (request_url req)"
    using request_url_rooted [of req] by (intro Clean_refines) simp_all
  have "list_all clean_segment (resolve_segments [] (segments (request_url req)))"
    by (rule resolve_segments_clean) (auto dest: segments_no_sep)
  moreover have "hd (ServeHTTP E h req) = OsOpen (resolve h (request_url req))"
    by (simp add: ServeHTTP_def Let_def split: option.splits sum.splits)
  ultimately show ?thesis
    using c by (simp add: request_url_def resolve_def Let_def)
qed

theorem resolve_inside_base_witness:
  "request_url (get ''notes/../../..//a.md'' []) = ''/notes/../../..//a.md''
   \<and> lexical_clean (request_url (get ''notes/../../..//a.md'' [])) = ''/a.md''
   \<and> Clean (request_url (get ''notes/../../..//a.md'' [])) = ''/a.md''
   \<and> resolve sample_handler (request_url (get ''notes/../../..//a.md'' [])) = ''docs/a.md''
   \<and> resolve_segments [] (segments (request_url (get ''/notes/api/../guide.md'' []))) =
       [''notes'', ''guide.md'']
   \<and> list_all clean_segment [''notes'', ''guide.md'']
   \<and> Clean (request_url (get ''/notes/api/../guide.md'' [])) = ''/notes/guide.md''
   \<and> resolve sample_handler (request_url (get ''/notes/api/../guide.md'' [])) =
       ''docs/notes/guide.md''
   \<and> hd (ServeHTTP sample_env sample_handler (get ''/notes/api/../guide.md'' [])) =
       OsOpen ''docs/notes/guide.md''"
proof -
  have u1: "request_url (get ''notes/../../..//a.md'' []) = ''/notes/../../..//a.md''"
    and u2: "request_url (get ''/notes/api/../guide.md'' []) = ''/notes/api/../guide.md''"
    by (simp_all add: request_url_def get_def HasPrefix_def)
  have s1: "resolve_segments [] (segments ''/notes/../../..//a.md'') = [''a.md'']"
    and s2: "resolve_segments [] (segments ''/notes/api/../guide.md'') = [''notes'', ''guide.md'']"
    by (simp_all add: sep_def)
  have l1: "lexical_clean ''/notes/../../..//a.md'' = ''/a.md''"
    and l2: "lexical_clean ''/notes/api/../guide.md'' = ''/notes/guide.md''"
    by (simp_all add: lexical_clean_def s1 s2 rooted_path_def sep_def)
  have d: "dir sample_handler = ''docs''"
    by (simp add: sample_handler_def)
  note t1 = resolve_inside_base [of "get ''notes/../../..//a.md'' []" sample_handler sample_env]
  note t2 = resolve_inside_base [of "get ''/notes/api/../guide.md'' []" sample_handler sample_env]
  have r1: "resolve sample_handler ''/notes/../../..//a.md'' = ''docs/a.md''"
    and c1: "Clean ''/notes/../../..//a.md'' = ''/a.md''"
    using t1 [THEN conjunct2] unfolding u1 l1 d by simp_all
  have r2: "resolve sample_handler ''/notes/api/../guide.md'' = ''docs/notes/guide.md''"
    and c2: "Clean ''/notes/api/../guide.md'' = ''/notes/guide.md''"
    and k2: "list_all clean_segment [''notes'', ''guide.md'']"
    and h2: "hd (ServeHTTP sample_env sample_handler (get ''/notes/api/../guide.md'' [])) =
       OsOpen ''docs/notes/guide.md''"
    using t2 [THEN conjunct2] unfolding u2 l2 s2 d by simp_all
  show ?thesis
    unfolding u1 u2 l1 s2 by (simp only: r1 c1 r2 c2 k2 h2 simp_thms)
qed

end
